theory Spec2Isabelle
  imports Complex_Main
begin

section \<open>Points Tracker: the ledger and the weekly heatmap of \<open>points-tracker.pyw\<close>\<close>

text \<open>
  The program keeps one table \<open>points(id, date, points)\<close> in an SQLite file and a Qt
  window over it. The model below follows \<open>src/points-tracker.pyw\<close>: the table is a list
  of rows in scan order, the window is a record of the fields the handlers read and
  write, and every handler is a function from the state to a result and the next state.
  Python strings are modelled as lists of 8-bit characters; on these, the digit classes
  of Python (\<open>\d\<close> in a regular expression, \<open>int\<close>) are the ASCII digits.
\<close>

subsection \<open>Digits and decimal numbers\<close>

definition in_class :: "char \<Rightarrow> char \<Rightarrow> char \<Rightarrow> bool" where
  "in_class lo hi c \<longleftrightarrow> (of_char lo :: nat) \<le> of_char c \<and> (of_char c :: nat) \<le> of_char hi"

definition digit_value :: "char \<Rightarrow> int" where
  "digit_value c = int (of_char c) - 48"

definition decimal :: "string \<Rightarrow> int" where
  "decimal s = foldl (\<lambda>a c. 10 * a + digit_value c) 0 s"

text \<open>
  \<open>str.isdigit()\<close> on the text of the points spin box. A \<open>QSpinBox\<close> shows its value in
  decimal, so its text is made of ASCII digits.
\<close>

definition isdigit :: "string \<Rightarrow> bool" where
  "isdigit s \<longleftrightarrow> s \<noteq> [] \<and> list_all (in_class CHR ''0'' CHR ''9'') s"

text \<open>
  \<open>int(s)\<close> on the strings that reach it in this program: a string that passed
  \<open>isdigit\<close>, or a group matched by the date regular expression (digits, after at most a
  leading blank, which \<open>int\<close> strips).
\<close>

definition py_int :: "string \<Rightarrow> int" where
  "py_int s = decimal (dropWhile (\<lambda>c. c = CHR '' '') s)"

subsection \<open>\<open>datetime.strptime(date_str, "%Y-%m-%d")\<close>\<close>

text \<open>
  The standard library turns the format into the regular expression
  \<^verbatim>\<open>(?P<Y>\d\d\d\d)-(?P<m>1[0-2]|0[1-9]|[1-9])-(?P<d>3[0-1]|[1-2]\d|0[1-9]|[1-9]| [1-9])\<close>,
  matches it at the start of the string with a backtracking matcher, refuses a match that
  does not reach the end of the string, converts the three groups with \<open>int\<close> and builds
  a date, which checks the three numbers. A matcher is modelled by the list of its
  matches in the order backtracking tries them: the text matched and the text left.
\<close>

type_synonym matcher = "string \<Rightarrow> (string \<times> string) list"

definition chr_class :: "char \<Rightarrow> char \<Rightarrow> matcher" where
  "chr_class lo hi s = (case s of [] \<Rightarrow> [] | c # cs \<Rightarrow> if in_class lo hi c then [([c], cs)] else [])"

definition lit :: "char \<Rightarrow> matcher" where
  "lit c = chr_class c c"

definition re_seq :: "matcher \<Rightarrow> matcher \<Rightarrow> matcher" where
  "re_seq p q s = [(a @ b, r'). (a, r) \<leftarrow> p s, (b, r') \<leftarrow> q r]"

definition re_alt :: "matcher \<Rightarrow> matcher \<Rightarrow> matcher" where
  "re_alt p q s = p s @ q s"

definition re_digit :: matcher where
  "re_digit = chr_class CHR ''0'' CHR ''9''"

definition re_Y :: matcher where
  "re_Y = re_seq re_digit (re_seq re_digit (re_seq re_digit re_digit))"

definition re_m :: matcher where
  "re_m = re_alt (re_seq (lit CHR ''1'') (chr_class CHR ''0'' CHR ''2''))
         (re_alt (re_seq (lit CHR ''0'') (chr_class CHR ''1'' CHR ''9''))
                 (chr_class CHR ''1'' CHR ''9''))"

definition re_d :: matcher where
  "re_d = re_alt (re_seq (lit CHR ''3'') (chr_class CHR ''0'' CHR ''1''))
         (re_alt (re_seq (chr_class CHR ''1'' CHR ''2'') re_digit)
         (re_alt (re_seq (lit CHR ''0'') (chr_class CHR ''1'' CHR ''9''))
         (re_alt (chr_class CHR ''1'' CHR ''9'')
                 (re_seq (lit CHR '' '') (chr_class CHR ''1'' CHR ''9'')))))"

text \<open>\<open>format_regex.match(data_string)\<close>: the first match, with its groups and the text left.\<close>

definition format_regex_match :: "string \<Rightarrow> ((string \<times> string \<times> string) \<times> string) option" where
  "format_regex_match s =
     (case [((y, m, d), r5). (y, r1) \<leftarrow> re_Y s, (h1, r2) \<leftarrow> lit CHR ''-'' r1,
              (m, r3) \<leftarrow> re_m r2, (h2, r4) \<leftarrow> lit CHR ''-'' r3, (d, r5) \<leftarrow> re_d r4]
      of [] \<Rightarrow> None | x # xs \<Rightarrow> Some x)"

definition is_leap :: "int \<Rightarrow> bool" where
  "is_leap year \<longleftrightarrow> year mod 4 = 0 \<and> (year mod 100 \<noteq> 0 \<or> year mod 400 = 0)"

definition DAYS_IN_MONTH :: "int list" where
  "DAYS_IN_MONTH = [-1, 31, 28, 31, 30, 31, 30, 31, 31, 30, 31, 30, 31]"

definition days_in_month :: "int \<Rightarrow> int \<Rightarrow> int" where
  "days_in_month year month =
     (if month = 2 \<and> is_leap year then 29 else DAYS_IN_MONTH ! nat month)"

text \<open>The checks of the date constructor; each failure is a \<open>ValueError\<close>.\<close>

definition check_date_fields :: "int \<Rightarrow> int \<Rightarrow> int \<Rightarrow> bool" where
  "check_date_fields year month day \<longleftrightarrow>
     (1 \<le> year \<and> year \<le> 9999) \<and> (1 \<le> month \<and> month \<le> 12) \<and>
     (1 \<le> day \<and> day \<le> days_in_month year month)"

text \<open>\<open>None\<close> stands for the \<open>ValueError\<close> that \<open>strptime\<close> raises.\<close>

definition strptime :: "string \<Rightarrow> (int \<times> int \<times> int) option" where
  "strptime data_string =
     (case format_regex_match data_string of
        None \<Rightarrow> None
      | Some ((y, m, d), rest) \<Rightarrow>
          if rest \<noteq> [] then None
          else if check_date_fields (py_int y) (py_int m) (py_int d)
               then Some (py_int y, py_int m, py_int d)
               else None)"

definition is_valid_date :: "string \<Rightarrow> bool" where
  "is_valid_date date_str = (case strptime date_str of Some t \<Rightarrow> True | None \<Rightarrow> False)"

subsection \<open>The table \<open>points\<close>\<close>

text \<open>
  \<^verbatim>\<open>CREATE TABLE points (id INTEGER PRIMARY KEY, date TEXT NOT NULL, points INTEGER NOT NULL)\<close>.
  The schema puts no uniqueness constraint on \<open>date\<close>, so the table is a list of rows in
  which a date may repeat; the list is in the order a scan of the table returns them.
  The program never reads or writes \<open>id\<close>: SQLite assigns it.
\<close>

record row =
  row_id :: int
  row_date :: string
  row_points :: int

type_synonym table = "row list"

text \<open>\<^verbatim>\<open>SELECT points FROM points WHERE date = ?\<close> and \<open>fetchone()\<close>.\<close>

definition select_points :: "string \<Rightarrow> table \<Rightarrow> int option" where
  "select_points date t =
     (case filter (\<lambda>r. row_date r = date) t of [] \<Rightarrow> None | r # rs \<Rightarrow> Some (row_points r))"

text \<open>\<^verbatim>\<open>UPDATE points SET points = ? WHERE date = ?\<close>.\<close>

definition sql_update :: "int \<Rightarrow> string \<Rightarrow> table \<Rightarrow> table" where
  "sql_update new_points date t =
     map (\<lambda>r. if row_date r = date then r\<lparr>row_points := new_points\<rparr> else r) t"

text \<open>\<^verbatim>\<open>DELETE FROM points WHERE date = ?\<close>.\<close>

definition sql_delete :: "string \<Rightarrow> table \<Rightarrow> table" where
  "sql_delete date t = filter (\<lambda>r. row_date r \<noteq> date) t"

text \<open>
  \<^verbatim>\<open>INSERT INTO points (date, points) VALUES (?, ?)\<close>: the new row gets the largest
  \<open>id\<close> in use plus one (1 in an empty table).
\<close>

definition next_rowid :: "table \<Rightarrow> int" where
  "next_rowid t = (if t = [] then 1 else Max (set (map row_id t)) + 1)"

definition sql_insert :: "string \<Rightarrow> int \<Rightarrow> table \<Rightarrow> table" where
  "sql_insert date pts t = t @ [\<lparr>row_id = next_rowid t, row_date = date, row_points = pts\<rparr>]"

text \<open>
  An SQLite \<open>INTEGER\<close> has 64 bits: binding a Python integer outside this range as a
  parameter raises \<open>OverflowError\<close> before the statement runs.
\<close>

definition sqlite_int :: "int \<Rightarrow> bool" where
  "sqlite_int n \<longleftrightarrow> - (2 ^ 63) \<le> n \<and> n < 2 ^ 63"

subsection \<open>The window\<close>

text \<open>
  A \<open>datetime\<close> is the ordinal of its day (1 is 0001-01-01, 3652059 is 9999-12-31) and
  its time of day in microseconds, which the program never changes.
\<close>

record datetime =
  ordinal :: int
  time_of_day :: int

text \<open>
  The state of \<open>PointsTracker\<close> and of its \<open>HeatmapCalendar\<close>: the table in \<open>points.db\<close>,
  the texts of the two input fields, the daily goal, and the three fields of the heatmap
  (\<open>points_data\<close>, \<open>target_points_per_day\<close>, \<open>current_week_start\<close>).
\<close>

record tracker =
  db :: table
  date_entry :: string
  points_entry :: string
  points_per_day :: int
  points_data :: "string \<rightharpoonup> int"
  target_points_per_day :: int
  current_week_start :: datetime

text \<open>\<open>{row[0]: row[1] for row in rows}\<close>: a later row overwrites an earlier one.\<close>

definition rows_dict :: "table \<Rightarrow> (string \<rightharpoonup> int)" where
  "rows_dict rows = foldl (\<lambda>m r. m(row_date r \<mapsto> row_points r)) Map.empty rows"

definition update_points_display :: "tracker \<Rightarrow> tracker" where
  "update_points_display s =
     s\<lparr>points_data := rows_dict (db s), target_points_per_day := points_per_day s\<rparr>"

text \<open>
  What a handler shows or raises. The message boxes carry the values the program formats
  into their texts:
  \<^item> \<open>Critical_invalid_date\<close>: "Please enter a valid date in YYYY-MM-DD format."
  \<^item> \<open>Critical_invalid_points\<close>: "Please enter a valid number of points."
  \<^item> \<open>Information_updated date n\<close>: "Updated points for \{date\}. Total points: \{n\}"
  \<^item> \<open>Information_deleted date\<close>: "Points for \{date\} have been deleted."
  \<^item> \<open>Information_added points\<close>: "Points added successfully! Total points: \{points\}"
  \<^item> \<open>Warning_no_points\<close>: "No points recorded for this date."
  \<^item> \<open>No_message\<close>: the handler returns without a message box.
  \<^item> \<open>Raised_OverflowError\<close>: the handler leaves with this exception, which
    \<open>except sqlite3.Error\<close> does not catch; nothing is committed.
\<close>

datatype outcome =
    Critical_invalid_date
  | Critical_invalid_points
  | Information_updated string int
  | Information_deleted string
  | Information_added string
  | Warning_no_points
  | No_message
  | Raised_OverflowError

text \<open>\<open>conn.commit()\<close> followed by \<open>self.update_points_display()\<close>.\<close>

definition commit :: "table \<Rightarrow> tracker \<Rightarrow> tracker" where
  "commit t s = update_points_display (s\<lparr>db := t\<rparr>)"

text \<open>
  \<open>if not date: date = self.date_entry.text()\<close>: the date the handler works on is its
  argument, or the text of the date field when the argument is missing or empty.
\<close>

definition effective_date :: "string option \<Rightarrow> tracker \<Rightarrow> string" where
  "effective_date date_arg s =
     (case date_arg of None \<Rightarrow> date_entry s | Some d \<Rightarrow> if d = [] then date_entry s else d)"

text \<open>
  \<open>PointsTracker.update_points(operation, date=None)\<close>. The buttons call it with
  \<open>operation\<close> 1 or -1 and no date; a click on the heatmap passes the date of the square.
  Failures of the database file itself (\<open>sqlite3.Error\<close>) are outside the model.
\<close>

definition update_points :: "int \<Rightarrow> string option \<Rightarrow> tracker \<Rightarrow> outcome \<times> tracker" where
  "update_points operation date_arg s =
     (let date = effective_date date_arg s;
          points = points_entry s
      in if \<not> is_valid_date date then (Critical_invalid_date, s)
         else if isdigit points then
           (case select_points date (db s) of
              Some existing \<Rightarrow>
                if operation = 1 then
                  (let new_points = existing + py_int points
                   in if sqlite_int new_points
                      then (Information_updated date new_points,
                            commit (sql_update new_points date (db s)) s)
                      else (Raised_OverflowError, s))
                else if operation = - 1 then
                  (let new_points = existing - py_int points
                   in if new_points \<le> 0
                      then (Information_deleted date, commit (sql_delete date (db s)) s)
                      else if sqlite_int new_points
                      then (Information_updated date new_points,
                            commit (sql_update new_points date (db s)) s)
                      else (Raised_OverflowError, s))
                else (No_message, commit (db s) s)
            | None \<Rightarrow>
                if operation = 1 then
                  (if sqlite_int (py_int points)
                   then (Information_added points,
                         commit (sql_insert date (py_int points) (db s)) s)
                   else (Raised_OverflowError, s))
                else (Warning_no_points, commit (db s) s))
         else (Critical_invalid_points, s))"

text \<open>A window over an empty table, as after the first start of the program.\<close>

definition start_tracker :: tracker where
  "start_tracker =
     \<lparr>db = [], date_entry = ''2024-01-05'', points_entry = ''0'', points_per_day = 10,
      points_data = Map.empty, target_points_per_day = 10,
      current_week_start = \<lparr>ordinal = 738886, time_of_day = 0\<rparr>\<rparr>"

text \<open>
  The states the invariants of the table range over: those the window reaches from an
  empty table when the user edits the two input fields and triggers \<open>update_points\<close>,
  with either operation and from the buttons or from the heatmap.
\<close>

inductive reachable :: "tracker \<Rightarrow> bool" where
  start: "db s = [] \<Longrightarrow> reachable s"
| edit_date: "reachable s \<Longrightarrow> reachable (s\<lparr>date_entry := t\<rparr>)"
| edit_points: "reachable s \<Longrightarrow> reachable (s\<lparr>points_entry := t\<rparr>)"
| upsert: "reachable s \<Longrightarrow> reachable (snd (update_points operation date_arg s))"

subsection \<open>Dates of the displayed week\<close>

datatype exn = OverflowError

definition MAXORDINAL :: int where
  "MAXORDINAL = 3652059"

text \<open>
  \<open>dt + timedelta(days=n)\<close>: the day moves, the time of day stays; a day outside
  0001-01-01 .. 9999-12-31 raises \<open>OverflowError\<close> ("date value out of range").
\<close>

definition add_days :: "datetime \<Rightarrow> int \<Rightarrow> exn + datetime" where
  "add_days dt n =
     (if 0 < ordinal dt + n \<and> ordinal dt + n \<le> MAXORDINAL
      then Inr (dt\<lparr>ordinal := ordinal dt + n\<rparr>)
      else Inl OverflowError)"

definition DAYS_BEFORE_MONTH :: "int list" where
  "DAYS_BEFORE_MONTH = [-1, 0, 31, 59, 90, 120, 151, 181, 212, 243, 273, 304, 334]"

definition DI400Y :: int where "DI400Y = 146097"
definition DI100Y :: int where "DI100Y = 36524"
definition DI4Y :: int where "DI4Y = 1461"

text \<open>
  The year, month and day of an ordinal, computed as the standard library does
  (\<open>_ord2ymd\<close>): whole cycles of 400, 100, 4 and 1 years, then an estimate of the month
  that is right or one too large.
\<close>

definition month_and_day :: "bool \<Rightarrow> int \<Rightarrow> int \<times> int" where
  "month_and_day leapyear n =
     (let month = (n + 50) div 32;
          preceding = DAYS_BEFORE_MONTH ! nat month + (if month > 2 \<and> leapyear then 1 else 0)
      in if preceding > n
         then (month - 1,
               n - (preceding - (DAYS_IN_MONTH ! nat (month - 1)
                                  + (if month - 1 = 2 \<and> leapyear then 1 else 0))) + 1)
         else (month, n - preceding + 1))"

definition ord2ymd :: "int \<Rightarrow> int \<times> int \<times> int" where
  "ord2ymd ord =
     (let n = ord - 1;
          n400 = n div DI400Y; n = n mod DI400Y;
          n100 = n div DI100Y; n = n mod DI100Y;
          n4 = n div DI4Y; n = n mod DI4Y;
          n1 = n div 365; n = n mod 365;
          year = n400 * 400 + 1 + n100 * 100 + n4 * 4 + n1
      in if n1 = 4 \<or> n100 = 4 then (year - 1, 12, 31)
         else (let leapyear = (n1 = 3 \<and> (n4 \<noteq> 24 \<or> n100 = 3));
                   (month, day) = month_and_day leapyear n
               in (year, month, day)))"

text \<open>The ranges of the month and the day of a date.\<close>

definition date_fields_ok :: "int \<times> int \<Rightarrow> bool" where
  "date_fields_ok md = (case md of (m, d) \<Rightarrow> 1 \<le> m \<and> m \<le> 12 \<and> 1 \<le> d \<and> d \<le> 31)"

text \<open>Decimal digits of a natural number, and padding with zeros on the left.\<close>

fun str_nat :: "nat \<Rightarrow> string" where
  "str_nat n =
     (if n < 10 then [char_of (48 + n)] else str_nat (n div 10) @ [char_of (48 + n mod 10)])"

declare str_nat.simps [simp del]

definition zero_pad :: "nat \<Rightarrow> string \<Rightarrow> string" where
  "zero_pad w s = replicate (w - length s) CHR ''0'' @ s"

text \<open>
  \<open>dt.strftime("%Y-%m-%d")\<close>. The month and the day are written with two digits. The
  year is written by the C library, which pads a year below 1000 to four digits on some
  platforms and not on others: \<open>pad_year\<close> says which. The three fields of a date are
  positive (lemma \<open>ord2ymd_range\<close> below).
\<close>

definition strftime_Ymd :: "bool \<Rightarrow> datetime \<Rightarrow> string" where
  "strftime_Ymd pad_year dt =
     (case ord2ymd (ordinal dt) of (y, m, d) \<Rightarrow>
        (if pad_year then zero_pad 4 (str_nat (nat y)) else str_nat (nat y))
        @ ''-'' @ zero_pad 2 (str_nat (nat m)) @ ''-'' @ zero_pad 2 (str_nat (nat d)))"

text \<open>
  \<open>paintEvent\<close>, for square \<open>i\<close> of the week:
  \<open>date = (self.current_week_start + timedelta(days=i)).strftime("%Y-%m-%d")\<close> and
  \<open>points = self.points_data.get(date, 0)\<close>.
\<close>

definition cell_date :: "bool \<Rightarrow> tracker \<Rightarrow> int \<Rightarrow> exn + string" where
  "cell_date pad_year s i =
     (case add_days (current_week_start s) i of
        Inl e \<Rightarrow> Inl e
      | Inr dt \<Rightarrow> Inr (strftime_Ymd pad_year dt))"

definition cell_points :: "tracker \<Rightarrow> string \<Rightarrow> int" where
  "cell_points s date = (case points_data s date of None \<Rightarrow> 0 | Some p \<Rightarrow> p)"

subsection \<open>Colour of a square\<close>

text \<open>
  \<open>int((points / self.target_points_per_day) * 155)\<close> is computed in double precision:
  the quotient of the two integers is rounded to the nearest double, its product with
  155 is rounded again, and \<open>int\<close> cuts the fraction off. A positive double is modelled
  as a pair \<open>(m, e)\<close> that stands for \<open>m * 2 ^ e\<close>, with 53 significant bits in \<open>m\<close>; the
  rounding is to nearest, ties to the even mantissa. The quotients and products of this
  program are far from the ends of the exponent range, which the model leaves out.
\<close>

type_synonym double = "int \<times> int"

text \<open>The real number a double stands for.\<close>

definition double_value :: "double \<Rightarrow> real" where
  "double_value x = real_of_int (fst x) * 2 powi (snd x)"

text \<open>\<open>int.bit_length()\<close> of a positive integer.\<close>

function bit_length :: "int \<Rightarrow> int" where
  "bit_length n = (if n \<le> 0 then 0 else 1 + bit_length (n div 2))"
  by pat_completeness auto
termination
  by (relation "measure nat") auto

declare bit_length.simps [simp del]

definition round_half_even :: "int \<Rightarrow> int \<Rightarrow> int" where
  "round_half_even a b =
     (let q = a div b; r = a mod b
      in if 2 * r < b then q else if b < 2 * r then q + 1
         else if even q then q else q + 1)"

text \<open>The double nearest to \<open>a / b\<close>, for positive \<open>a\<close> and \<open>b\<close>.\<close>

definition nearest_double :: "int \<Rightarrow> int \<Rightarrow> double" where
  "nearest_double a b =
     (let k = bit_length a - bit_length b;
          lg = (if b * 2 ^ nat k \<le> a * 2 ^ nat (- k) then k else k - 1);
          e = lg - 52
      in (round_half_even (a * 2 ^ nat (- e)) (b * 2 ^ nat e), e))"

text \<open>\<open>a / b\<close> on integers, \<open>x * k\<close> on a double and an integer, and \<open>int(x)\<close>.\<close>

definition int_true_divide :: "int \<Rightarrow> int \<Rightarrow> double" where
  "int_true_divide a b = nearest_double a b"

definition float_mul_int :: "double \<Rightarrow> int \<Rightarrow> double" where
  "float_mul_int x k = (case x of (m, e) \<Rightarrow> nearest_double (m * k * 2 ^ nat e) (2 ^ nat (- e)))"

definition float_to_int :: "double \<Rightarrow> int" where
  "float_to_int x = (case x of (m, e) \<Rightarrow> (m * 2 ^ nat e) div 2 ^ nat (- e))"

text \<open>
  The value \<open>paintEvent\<close> assigns to \<open>self.color_value\<close> for a square with
  \<open>points > 0\<close>; it is the green and the alpha channel of the overlay.
\<close>

definition color_value :: "int \<Rightarrow> int \<Rightarrow> int" where
  "color_value points target =
     (if target > 0
      then min 155 (float_to_int (float_mul_int (int_true_divide points target) 155))
      else 0)"

text \<open>
  The two formulas the colour is compared with. The first is the one of the
  specification, \<open>clamp(round(points / dailyGoal * 155), 0, 155)\<close>, with exact division
  and halves rounded up. The second cuts the fraction off instead, on the product as the
  program computes it in double precision.
\<close>

definition claimed_intensity :: "int \<Rightarrow> int \<Rightarrow> int" where
  "claimed_intensity points daily_goal =
     (if daily_goal > 0
      then max 0 (min 155 ((2 * (points * 155) + daily_goal) div (2 * daily_goal)))
      else 0)"

definition truncated_intensity :: "int \<Rightarrow> int \<Rightarrow> int" where
  "truncated_intensity points daily_goal =
     max 0 (min 155 (float_to_int (float_mul_int (int_true_divide points daily_goal) 155)))"

subsection \<open>The square under the pointer\<close>

text \<open>
  \<open>mouseMoveEvent\<close> and \<open>mousePressEvent\<close> start with the same lines: the geometry of the
  row from the width and height of the widget, then the index of the square under the
  pointer at \<open>(ex, ey)\<close>, if any.
\<close>

definition square_size :: "int \<Rightarrow> int \<Rightarrow> int" where
  "square_size width height = min (width div 6) (height - 5)"

definition row_start_x :: "int \<Rightarrow> int \<Rightarrow> int" where
  "row_start_x width height =
     (width - (square_size width height * 7 + 5 * 6)) div 2"

definition row_y :: "int \<Rightarrow> int \<Rightarrow> int" where
  "row_y width height = (height - square_size width height) div 4"

definition square_index_at :: "int \<Rightarrow> int \<Rightarrow> int \<Rightarrow> int \<Rightarrow> int option" where
  "square_index_at width height ex ey =
     (let size = square_size width height;
          spacing = 5;
          adjusted_width = size + spacing;
          start_x = row_start_x width height;
          y = row_y width height;
          x = ex - start_x
      in if 0 \<le> y \<and> y \<le> ey \<and> ey < y + size
         then (let square_index = x div adjusted_width
               in if 0 \<le> square_index \<and> square_index < 7 then Some square_index else None)
         else None)"

subsection \<open>Moving the week\<close>

definition set_week_start :: "datetime \<Rightarrow> tracker \<Rightarrow> tracker" where
  "set_week_start week_start s = s\<lparr>current_week_start := week_start\<rparr>"


definition show_next_week :: "tracker \<Rightarrow> exn + tracker" where
  "show_next_week s =
     (case add_days (current_week_start s) 7 of
        Inl e \<Rightarrow> Inl e
      | Inr new_week_start \<Rightarrow> Inr (update_points_display (set_week_start new_week_start s)))"




section \<open>Facts about the table operations\<close>

lemmas date_eval = is_valid_date_def strptime_def format_regex_match_def re_Y_def re_m_def
  re_d_def re_seq_def re_alt_def re_digit_def lit_def chr_class_def in_class_def
  check_date_fields_def py_int_def decimal_def digit_value_def days_in_month_def
  DAYS_IN_MONTH_def is_leap_def

lemma select_points_None_iff:
  "select_points d t = None \<longleftrightarrow> d \<notin> set (map row_date t)"
  by (induction t) (auto simp: select_points_def)

lemma dates_sql_update [simp]: "map row_date (sql_update n d t) = map row_date t"
  by (induction t) (auto simp: sql_update_def)

lemma dates_sql_delete: "map row_date (sql_delete d t) = filter (\<lambda>x. x \<noteq> d) (map row_date t)"
  by (induction t) (auto simp: sql_delete_def)

lemma dates_sql_insert [simp]: "map row_date (sql_insert d n t) = map row_date t @ [d]"
  by (simp add: sql_insert_def)

lemma db_commit [simp]: "db (commit t s) = t"
  by (simp add: commit_def update_points_display_def)

lemma db_update_points_display [simp]: "db (update_points_display s) = db s"
  by (simp add: update_points_display_def)

lemma rows_dict_snoc:
  "rows_dict (t @ [r]) = (rows_dict t)(row_date r \<mapsto> row_points r)"
  by (simp add: rows_dict_def)

lemma filter_date_fresh:
  "d \<notin> set (map row_date t) \<Longrightarrow> filter (\<lambda>r. row_date r = d) t = []"
  by (induction t) auto

lemma filter_date_sql_update:
  "filter (\<lambda>r. row_date r = d) (sql_update n d t) =
   map (\<lambda>r. r\<lparr>row_points := n\<rparr>) (filter (\<lambda>r. row_date r = d) t)"
  by (induction t) (auto simp: sql_update_def)

lemma select_points_insert_fresh:
  "d \<notin> set (map row_date t) \<Longrightarrow> select_points d (sql_insert d n t) = Some n"
  by (simp add: select_points_def sql_insert_def filter_date_fresh)

lemma effective_date_points_entry [simp]:
  "effective_date date_arg (s\<lparr>points_entry := t\<rparr>) = effective_date date_arg s"
  by (simp add: effective_date_def split: option.split)

lemma effective_date_commit [simp]:
  "effective_date date_arg (commit t s) = effective_date date_arg s"
  by (simp add: effective_date_def commit_def update_points_display_def split: option.split)

lemma points_data_commit [simp]: "points_data (commit t s) = rows_dict t"
  by (simp add: commit_def update_points_display_def)

lemma update_points_insert:
  assumes "is_valid_date (effective_date date_arg s)"
    and "effective_date date_arg s \<notin> set (map row_date (db s))"
    and "isdigit (points_entry s)"
    and "sqlite_int (py_int (points_entry s))"
  shows "update_points 1 date_arg s =
           (Information_added (points_entry s),
            commit (sql_insert (effective_date date_arg s) (py_int (points_entry s)) (db s)) s)"
proof -
  from assms(2) have "select_points (effective_date date_arg s) (db s) = None"
    by (simp add: select_points_None_iff)
  with assms(1,3,4) show ?thesis
    by (simp add: update_points_def Let_def)
qed

lemma start_tracker_simps:
  "db start_tracker = []" "date_entry start_tracker = ''2024-01-05''"
  "points_entry start_tracker = ''0''"
  by (simp_all add: start_tracker_def)

lemma valid_2024_01_05: "is_valid_date ''2024-01-05''"
  by (simp add: date_eval)

section \<open>Rejected input\<close>

text \<open>
  C7. A date string that fails validation makes \<open>update_points\<close> show the invalid-date
  error and return at once: the whole state, and with it the table, is exactly as
  before, whatever the operation. The string \<open>2024-02-30\<close> has the right shape but names
  no day of the calendar, and fails validation.
\<close>

theorem invalid_date_rejected:
  "(\<not> is_valid_date (effective_date date_arg s) \<longrightarrow>
      update_points operation date_arg s = (Critical_invalid_date, s)) \<and>
   \<not> is_valid_date ''2024-02-30''"
proof
  show "\<not> is_valid_date (effective_date date_arg s) \<longrightarrow>
      update_points operation date_arg s = (Critical_invalid_date, s)"
    by (simp add: update_points_def)
  show "\<not> is_valid_date ''2024-02-30''"
    by (simp add: date_eval)
qed

theorem invalid_date_rejected_witness:
  "\<not> is_valid_date (effective_date (Some ''2024-02-30'') start_tracker) \<and>
   update_points 1 (Some ''2024-02-30'') start_tracker = (Critical_invalid_date, start_tracker)"
proof -
  have h: "\<not> is_valid_date (effective_date (Some ''2024-02-30'') start_tracker)"
    by (simp add: effective_date_def date_eval)
  with invalid_date_rejected [of "Some ''2024-02-30''" start_tracker 1] show ?thesis
    by blast
qed

text \<open>
  C6. Removing points from a valid date that has no row shows the warning
  "No points recorded for this date." and leaves the table as it was: no row is
  created, changed or deleted. This holds for every text of the points field that
  \<open>isdigit\<close> accepts.
\<close>

theorem remove_without_record:
  assumes "is_valid_date (effective_date date_arg s)"
    and "isdigit (points_entry s)"
    and "effective_date date_arg s \<notin> set (map row_date (db s))"
  shows "fst (update_points (- 1) date_arg s) = Warning_no_points \<and>
         db (snd (update_points (- 1) date_arg s)) = db s"
proof -
  from assms(3) have "select_points (effective_date date_arg s) (db s) = None"
    by (simp add: select_points_None_iff)
  with assms(1,2) show ?thesis
    by (simp add: update_points_def)
qed

theorem remove_without_record_witness:
  "is_valid_date (effective_date None (start_tracker\<lparr>points_entry := ''3''\<rparr>)) \<and>
   isdigit (points_entry (start_tracker\<lparr>points_entry := ''3''\<rparr>)) \<and>
   effective_date None (start_tracker\<lparr>points_entry := ''3''\<rparr>)
     \<notin> set (map row_date (db (start_tracker\<lparr>points_entry := ''3''\<rparr>))) \<and>
   fst (update_points (- 1) None (start_tracker\<lparr>points_entry := ''3''\<rparr>)) = Warning_no_points \<and>
   db (snd (update_points (- 1) None (start_tracker\<lparr>points_entry := ''3''\<rparr>))) = []"
proof -
  let ?s = "start_tracker\<lparr>points_entry := ''3''\<rparr>"
  have v: "is_valid_date (effective_date None ?s)"
    by (simp add: effective_date_def start_tracker_def date_eval)
  have d: "isdigit (points_entry ?s)"
    by (simp add: isdigit_def in_class_def)
  have n: "effective_date None ?s \<notin> set (map row_date (db ?s))"
    by (simp add: start_tracker_def)
  have e: "db ?s = []"
    by (simp add: start_tracker_def)
  from remove_without_record [OF v d n] v d n e show ?thesis
    by simp
qed

section \<open>Adding and removing points\<close>

text \<open>
  C5. For a valid date with no row and a points text whose value \<open>p\<close> is positive (and
  fits an SQLite integer, as every value of the spin box, at most 10000, does), adding
  the points and then reading the whole table into the dictionary of the heatmap
  (\<open>update_points_display\<close>) gives a dictionary that maps the date to \<open>p\<close>.
\<close>

theorem add_then_get_all:
  assumes "is_valid_date (effective_date date_arg s)"
    and "effective_date date_arg s \<notin> set (map row_date (db s))"
    and "isdigit (points_entry s)"
    and "0 < py_int (points_entry s)"
    and "py_int (points_entry s) < 2 ^ 63"
  shows "points_data (update_points_display (snd (update_points 1 date_arg s)))
           (effective_date date_arg s) = Some (py_int (points_entry s))"
proof -
  from assms(4,5) have "sqlite_int (py_int (points_entry s))"
    by (simp add: sqlite_int_def)
  with assms(1,2,3) have "db (snd (update_points 1 date_arg s)) =
      sql_insert (effective_date date_arg s) (py_int (points_entry s)) (db s)"
    by (simp add: update_points_insert)
  then show ?thesis
    by (simp add: update_points_display_def sql_insert_def rows_dict_snoc)
qed

theorem add_then_get_all_witness:
  "is_valid_date (effective_date None (start_tracker\<lparr>points_entry := ''5''\<rparr>)) \<and>
   effective_date None (start_tracker\<lparr>points_entry := ''5''\<rparr>)
     \<notin> set (map row_date (db (start_tracker\<lparr>points_entry := ''5''\<rparr>))) \<and>
   isdigit (points_entry (start_tracker\<lparr>points_entry := ''5''\<rparr>)) \<and>
   0 < py_int (points_entry (start_tracker\<lparr>points_entry := ''5''\<rparr>)) \<and>
   py_int (points_entry (start_tracker\<lparr>points_entry := ''5''\<rparr>)) < 2 ^ 63 \<and>
   points_data (update_points_display
       (snd (update_points 1 None (start_tracker\<lparr>points_entry := ''5''\<rparr>)))) ''2024-01-05''
     = Some 5"
proof -
  let ?s = "start_tracker\<lparr>points_entry := ''5''\<rparr>"
  have e: "effective_date None ?s = ''2024-01-05''"
    by (simp add: effective_date_def start_tracker_simps)
  have v: "is_valid_date (effective_date None ?s)"
    by (simp only: e valid_2024_01_05)
  have f: "effective_date None ?s \<notin> set (map row_date (db ?s))"
    by (simp add: start_tracker_simps)
  have d: "isdigit (points_entry ?s)"
    by (simp add: isdigit_def in_class_def)
  have p: "py_int (points_entry ?s) = 5"
    by (simp add: py_int_def decimal_def digit_value_def)
  have pos: "0 < py_int (points_entry ?s)" and fits: "py_int (points_entry ?s) < 2 ^ 63"
    by (simp_all only: p) simp_all
  from add_then_get_all [OF v f d pos fits] v f d pos fits show ?thesis
    by (simp only: e p) simp
qed

text \<open>
  C1. From a table with no row for the valid date \<open>d\<close>, adding \<open>p1\<close> and then removing
  \<open>p2\<close>, with \<open>0 < p2 \<le> p1\<close> (and \<open>p1\<close> fitting an SQLite integer), leaves exactly one
  row for \<open>d\<close>, with total \<open>p1 - p2\<close>, when \<open>p2 < p1\<close>, and no row for \<open>d\<close> when \<open>p1 = p2\<close>.
  Between the two calls the user changes the text of the points field from \<open>t1\<close> to \<open>t2\<close>.
\<close>

theorem add_then_remove:
  assumes valid: "is_valid_date (effective_date date_arg s)"
    and fresh: "effective_date date_arg s \<notin> set (map row_date (db s))"
    and digits: "isdigit t1" "isdigit t2"
    and pos: "0 < py_int t2"
    and le: "py_int t2 \<le> py_int t1"
    and fits: "py_int t1 < 2 ^ 63"
    and s1: "s1 = snd (update_points 1 date_arg (s\<lparr>points_entry := t1\<rparr>))"
    and s2: "s2 = snd (update_points (- 1) date_arg (s1\<lparr>points_entry := t2\<rparr>))"
  shows "if py_int t2 < py_int t1
         then map row_points (filter (\<lambda>r. row_date r = effective_date date_arg s) (db s2))
                = [py_int t1 - py_int t2]
         else effective_date date_arg s \<notin> set (map row_date (db s2))"
proof -
  let ?d = "effective_date date_arg s"
  let ?t = "sql_insert ?d (py_int t1) (db s)"
  from pos le fits have f1: "sqlite_int (py_int t1)"
    by (simp add: sqlite_int_def)
  have e1: "s1 = commit ?t (s\<lparr>points_entry := t1\<rparr>)"
    using update_points_insert [of date_arg "s\<lparr>points_entry := t1\<rparr>"] valid fresh digits(1) f1
    by (simp add: s1)
  have sel: "select_points ?d ?t = Some (py_int t1)"
    using fresh by (rule select_points_insert_fresh)
  show ?thesis
  proof (cases "py_int t2 < py_int t1")
    case True
    with pos fits have f2: "sqlite_int (py_int t1 - py_int t2)"
      by (simp add: sqlite_int_def)
    from True f2 sel valid digits(2)
    have "db s2 = sql_update (py_int t1 - py_int t2) ?d ?t"
      by (simp add: s2 e1 update_points_def Let_def)
    with fresh True show ?thesis
      by (simp add: filter_date_sql_update sql_insert_def filter_date_fresh)
  next
    case False
    with le sel valid digits(2)
    have "db s2 = sql_delete ?d ?t"
      by (simp add: s2 e1 update_points_def Let_def)
    with False show ?thesis
      by (simp add: dates_sql_delete)
  qed
qed

theorem add_then_remove_witness:
  "is_valid_date (effective_date None start_tracker) \<and>
   effective_date None start_tracker \<notin> set (map row_date (db start_tracker)) \<and>
   isdigit ''5'' \<and> isdigit ''3'' \<and> 0 < py_int ''3'' \<and> py_int ''3'' \<le> py_int ''5'' \<and>
   py_int ''5'' < 2 ^ 63 \<and>
   map row_points (filter (\<lambda>r. row_date r = ''2024-01-05'')
     (db (snd (update_points (- 1) None
        ((snd (update_points 1 None (start_tracker\<lparr>points_entry := ''5''\<rparr>)))
           \<lparr>points_entry := ''3''\<rparr>))))) = [2]"
proof -
  have e: "effective_date None start_tracker = ''2024-01-05''"
    by (simp add: effective_date_def start_tracker_simps)
  have v: "is_valid_date (effective_date None start_tracker)"
    by (simp only: e valid_2024_01_05)
  have f: "effective_date None start_tracker \<notin> set (map row_date (db start_tracker))"
    by (simp add: start_tracker_simps)
  have d1: "isdigit ''5''" and d2: "isdigit ''3''"
    by (simp_all add: isdigit_def in_class_def)
  have p1: "py_int ''5'' = 5" and p2: "py_int ''3'' = 3"
    by (simp_all add: py_int_def decimal_def digit_value_def)
  have pos: "0 < py_int ''3''" and le: "py_int ''3'' \<le> py_int ''5''"
    and fits: "py_int ''5'' < 2 ^ 63"
    by (simp_all only: p1 p2) simp_all
  from add_then_remove [OF v f d1 d2 pos le fits refl refl] v f d1 d2 pos le fits
  show ?thesis
    by (simp only: e p1 p2) simp
qed

section \<open>Invariants of the table\<close>

lemma distinct_dates_update_points:
  assumes "distinct (map row_date (db s))"
  shows "distinct (map row_date (db (snd (update_points operation date_arg s))))"
proof (cases "select_points (effective_date date_arg s) (db s)")
  case None
  then have "effective_date date_arg s \<notin> set (map row_date (db s))"
    by (simp add: select_points_None_iff)
  with assms None show ?thesis
    by (simp add: update_points_def Let_def)
next
  case (Some existing)
  with assms show ?thesis
    by (simp add: update_points_def Let_def dates_sql_delete)
qed

text \<open>
  The model of the table does not force dates to be distinct, as the schema does not:
  two inserts of one date give two rows. The handler, not the table, keeps them apart.
\<close>

lemma schema_allows_duplicates:
  "\<not> distinct (map row_date (sql_insert d 2 (sql_insert d 1 [])))"
  by (simp add: sql_insert_def)

text \<open>
  C9. In every state reached from an empty table through \<open>update_points\<close>, no two rows
  have the same date, although the schema would allow it: the handler inserts only
  when its \<open>SELECT\<close> found no row for the date, an \<open>UPDATE\<close> changes no date and a
  \<open>DELETE\<close> only removes rows.
\<close>

theorem one_record_per_date:
  "reachable s \<Longrightarrow> distinct (map row_date (db s))"
proof (induction rule: reachable.induct)
  case (start s)
  then show ?case by simp
next
  case (edit_date s t)
  then show ?case by simp
next
  case (edit_points s t)
  then show ?case by simp
next
  case (upsert s operation date_arg)
  from upsert.IH show ?case by (rule distinct_dates_update_points)
qed

theorem one_record_per_date_witness:
  "reachable (snd (update_points 1 None (start_tracker\<lparr>points_entry := ''5''\<rparr>))) \<and>
   distinct (map row_date (db (snd (update_points 1 None (start_tracker\<lparr>points_entry := ''5''\<rparr>)))))"
proof -
  have "reachable start_tracker"
    by (rule reachable.start) (simp add: start_tracker_simps)
  then have "reachable (start_tracker\<lparr>points_entry := ''5''\<rparr>)"
    by (rule reachable.edit_points)
  then have r: "reachable (snd (update_points 1 None (start_tracker\<lparr>points_entry := ''5''\<rparr>)))"
    by (rule reachable.upsert)
  from one_record_per_date [OF r] r show ?thesis
    by simp
qed

text \<open>
  Rows stay positive through every call of the handler whose points text has a positive
  value; only the value 0 is left to break it.
\<close>

lemma select_points_positive:
  assumes "list_all (\<lambda>r. 0 < row_points r) t" and "select_points d t = Some v"
  shows "0 < v"
proof -
  from assms(2) obtain r rs where "filter (\<lambda>r. row_date r = d) t = r # rs" and v: "v = row_points r"
    by (auto simp: select_points_def split: list.splits)
  then have "r \<in> set (filter (\<lambda>r. row_date r = d) t)"
    by simp
  then have "r \<in> set t"
    by simp
  with assms(1) v show ?thesis
    by (simp add: list_all_iff)
qed

lemma positive_sql_update:
  "0 < n \<Longrightarrow> list_all (\<lambda>r. 0 < row_points r) t
     \<Longrightarrow> list_all (\<lambda>r. 0 < row_points r) (sql_update n d t)"
  by (induction t) (simp_all add: sql_update_def)

lemma positive_sql_delete:
  "list_all (\<lambda>r. 0 < row_points r) t \<Longrightarrow> list_all (\<lambda>r. 0 < row_points r) (sql_delete d t)"
  by (simp add: sql_delete_def list_all_iff)

lemma positive_rows_kept:
  assumes inv: "list_all (\<lambda>r. 0 < row_points r) (db s)"
    and pos: "0 < py_int (points_entry s)"
  shows "list_all (\<lambda>r. 0 < row_points r) (db (snd (update_points operation date_arg s)))"
proof (cases "select_points (effective_date date_arg s) (db s)")
  case None
  with inv pos show ?thesis
    by (simp add: update_points_def Let_def sql_insert_def)
next
  case (Some existing)
  with inv have "0 < existing"
    by (simp add: select_points_positive)
  with inv pos Some show ?thesis
    by (simp add: update_points_def Let_def positive_sql_update positive_sql_delete)
qed

text \<open>
  C3. The specification says that no table reached from the empty one holds a row with
  points at or below zero. The program breaks this on its first click: the spin box starts at 0, its text \<open>0\<close>
  passes \<open>isdigit\<close>, and "Add Points" on a date without a row inserts a row with
  points 0 and reports "Points added successfully! Total points: 0".
\<close>

theorem zero_points_row_stored:
  "reachable (snd (update_points 1 None start_tracker)) \<and>
   fst (update_points 1 None start_tracker) = Information_added ''0'' \<and>
   db (snd (update_points 1 None start_tracker))
     = [\<lparr>row_id = 1, row_date = ''2024-01-05'', row_points = 0\<rparr>]"
proof -
  have "reachable start_tracker"
    by (rule reachable.start) (simp add: start_tracker_simps)
  then have r: "reachable (snd (update_points 1 None start_tracker))"
    by (rule reachable.upsert)
  have e: "effective_date None start_tracker = ''2024-01-05''"
    by (simp add: effective_date_def start_tracker_simps)
  have v: "is_valid_date (effective_date None start_tracker)"
    by (simp only: e valid_2024_01_05)
  have d: "isdigit (points_entry start_tracker)"
    by (simp add: start_tracker_simps isdigit_def in_class_def)
  have p0: "py_int ''0'' = 0"
    by (simp add: py_int_def decimal_def digit_value_def)
  then have p: "py_int (points_entry start_tracker) = 0"
    by (simp add: start_tracker_simps)
  have f: "effective_date None start_tracker \<notin> set (map row_date (db start_tracker))"
    by (simp add: start_tracker_simps)
  have "sqlite_int (py_int (points_entry start_tracker))"
    by (simp add: p sqlite_int_def)
  from update_points_insert [OF v f d this] have
    "update_points 1 None start_tracker =
       (Information_added ''0'', commit (sql_insert ''2024-01-05'' 0 (db start_tracker)) start_tracker)"
    by (simp only: e start_tracker_simps p0)
  with r show ?thesis
    by (simp add: sql_insert_def next_rowid_def start_tracker_simps)
qed

section \<open>The heatmap\<close>

subsection \<open>The rounding of the model is the rounding of doubles\<close>

text \<open>
  \<open>nearest_double a b\<close> has a mantissa of 53 bits and lies within half a unit in the last
  place of \<open>a / b\<close>; so the quotient and the product of the colour computation carry a
  relative error of at most \<open>2 ^ - 53\<close> each, and the colour is the floor of the exact
  value \<open>155 * points / target\<close>, cut at 155, or one less.
\<close>

lemma bit_length_bounds:
  "0 < n \<Longrightarrow> 1 \<le> bit_length n \<and> 2 ^ nat (bit_length n - 1) \<le> n \<and> n < 2 ^ nat (bit_length n)"
proof (induction n rule: bit_length.induct)
  case (1 n)
  show ?case
  proof (cases "n div 2 = 0")
    case True
    with "1.prems" have "n = 1" by simp
    then show ?thesis
      by (simp add: bit_length.simps)
  next
    case False
    with "1.prems" have pos: "0 < n div 2" by simp
    define l where "l = bit_length (n div 2)"
    from "1.IH" "1.prems" pos
    have ih: "1 \<le> l" "2 ^ nat (l - 1) \<le> n div 2" "n div 2 < 2 ^ nat l"
      by (simp_all add: l_def)
    have bl: "bit_length n = 1 + l"
      using "1.prems" by (subst bit_length.simps) (simp add: l_def)
    from ih(1) have n1: "nat (1 + l - 1) = Suc (nat (l - 1))" and n2: "nat (1 + l) = Suc (nat l)"
      by simp_all
    from ih(2) have "2 ^ nat (1 + l - 1) \<le> n"
      unfolding n1 by simp
    moreover from ih(3) have "n < 2 ^ nat (1 + l)"
      unfolding n2 by simp
    ultimately show ?thesis
      using ih(1) by (simp add: bl)
  qed
qed

lemma pow_nat_powi: "0 \<le> e \<Longrightarrow> (2::real) ^ nat e = 2 powi e"
  by (simp add: power_int_def)

lemma pow_nat_neg: "e \<le> 0 \<Longrightarrow> (2::real) ^ nat e = 1"
  by simp

lemma pow_ratio: "(2::real) ^ nat e / 2 ^ nat (- e) = 2 powi e"
  by (cases "0 \<le> e") (simp_all add: power_int_def field_simps)

lemma bit_length_real:
  assumes "0 < n"
  shows "2 powi (bit_length n - 1) \<le> real_of_int n" "real_of_int n < 2 powi (bit_length n)"
proof -
  from bit_length_bounds [OF assms]
  have b: "1 \<le> bit_length n" "2 ^ nat (bit_length n - 1) \<le> n" "n < 2 ^ nat (bit_length n)"
    by simp_all
  from b(2) have "real_of_int (2 ^ nat (bit_length n - 1)) \<le> real_of_int n"
    by (simp only: of_int_le_iff)
  with b(1) show "2 powi (bit_length n - 1) \<le> real_of_int n"
    by (simp add: power_int_def)
  from b(3) have "real_of_int n < real_of_int (2 ^ nat (bit_length n))"
    by (simp only: of_int_less_iff)
  with b(1) show "real_of_int n < 2 powi (bit_length n)"
    by (simp add: power_int_def)
qed


lemma log2_estimate:
  fixes a b :: int
  assumes "0 < a" "0 < b"
  defines "k \<equiv> bit_length a - bit_length b"
  defines "lg \<equiv> (if b * 2 ^ nat k \<le> a * 2 ^ nat (- k) then k else k - 1)"
  shows "2 powi lg \<le> real_of_int a / real_of_int b"
    and "real_of_int a / real_of_int b < 2 powi (lg + 1)"
proof -
  let ?q = "real_of_int a / real_of_int b"
  have rb: "0 < real_of_int b" using assms(2) by simp
  note la = bit_length_real [OF assms(1)] and lb = bit_length_real [OF assms(2)]
  have up: "?q < 2 powi (k + 1)"
  proof -
    have "2 powi bit_length a = 2 powi (k + 1) * (2::real) powi (bit_length b - 1)"
      by (simp add: k_def flip: power_int_add)
    also have "\<dots> \<le> 2 powi (k + 1) * real_of_int b"
      using lb(1) by (simp add: mult_left_mono)
    finally have "real_of_int a < 2 powi (k + 1) * real_of_int b"
      using la(2) by simp
    with rb show ?thesis
      by (simp add: pos_divide_less_eq)
  qed
  have low: "2 powi (k - 1) < ?q"
  proof -
    have "2 powi (k - 1) * real_of_int b < 2 powi (k - 1) * (2::real) powi bit_length b"
      using lb(2) by (simp add: mult_strict_left_mono)
    also have "\<dots> = 2 powi (bit_length a - 1)"
      by (simp add: k_def flip: power_int_add)
    finally have "2 powi (k - 1) * real_of_int b < real_of_int a"
      using la(1) by simp
    with rb show ?thesis
      by (simp add: pos_less_divide_eq)
  qed
  have test: "(b * 2 ^ nat k \<le> a * 2 ^ nat (- k)) \<longleftrightarrow> 2 powi k \<le> ?q"
  proof -
    have "(b * 2 ^ nat k \<le> a * 2 ^ nat (- k))
        \<longleftrightarrow> (real_of_int (b * 2 ^ nat k) \<le> real_of_int (a * 2 ^ nat (- k)))"
      by (simp only: of_int_le_iff)
    also have "\<dots> \<longleftrightarrow> (real_of_int b * 2 ^ nat k \<le> real_of_int a * 2 ^ nat (- k))"
      by simp
    also have "\<dots> \<longleftrightarrow> ((2::real) ^ nat k / 2 ^ nat (- k) \<le> ?q)"
      using rb by (simp add: field_simps)
    also have "\<dots> \<longleftrightarrow> 2 powi k \<le> ?q"
      by (simp only: pow_ratio)
    finally show ?thesis .
  qed
  show "2 powi lg \<le> ?q"
  proof (cases "b * 2 ^ nat k \<le> a * 2 ^ nat (- k)")
    case True
    with test show ?thesis by (simp add: lg_def)
  next
    case False
    with low show ?thesis by (simp add: lg_def)
  qed
  show "?q < 2 powi (lg + 1)"
  proof (cases "b * 2 ^ nat k \<le> a * 2 ^ nat (- k)")
    case True
    with up show ?thesis by (simp add: lg_def)
  next
    case False
    with test show ?thesis by (simp add: lg_def)
  qed
qed


lemma round_half_even_nearest:
  assumes "0 < d"
  shows "\<bar>2 * (round_half_even n d * d - n)\<bar> \<le> d"
    and "n div d \<le> round_half_even n d" and "round_half_even n d \<le> n div d + 1"
proof -
  define q where "q = n div d"
  define r where "r = n mod d"
  have n: "n = q * d + r" by (simp add: q_def r_def)
  have r: "0 \<le> r" "r < d" using assms by (simp_all add: r_def)
  have "(round_half_even n d = q \<and> 2 * r \<le> d) \<or> (round_half_even n d = q + 1 \<and> d \<le> 2 * r)"
    by (auto simp: round_half_even_def Let_def q_def r_def)
  then show "\<bar>2 * (round_half_even n d * d - n)\<bar> \<le> d"
  proof
    assume c: "round_half_even n d = q \<and> 2 * r \<le> d"
    then have "2 * (round_half_even n d * d - n) = - (2 * r)"
      by (simp add: n)
    with c r show ?thesis by simp
  next
    assume c: "round_half_even n d = q + 1 \<and> d \<le> 2 * r"
    then have "2 * (round_half_even n d * d - n) = 2 * d - 2 * r"
      by (simp add: n algebra_simps)
    with c r show ?thesis by simp
  qed
  show "n div d \<le> round_half_even n d" "round_half_even n d \<le> n div d + 1"
    by (simp_all add: round_half_even_def Let_def)
qed

lemma le_div_int:
  fixes d :: int
  shows "0 < d \<Longrightarrow> c * d \<le> n \<Longrightarrow> c \<le> n div d"
  using zdiv_mono1 [of "c * d" n d] by simp

lemma div_less_int:
  fixes d :: int
  assumes "0 < d" "n < c * d"
  shows "n div d < c"
proof -
  have "n div d * d + n mod d = n" by simp
  moreover have "0 \<le> n mod d" using assms(1) by simp
  ultimately have "n div d * d < c * d" using assms(2) by linarith
  with assms(1) show ?thesis
    by (simp add: mult_less_cancel_right)
qed

lemma nearest_double_props:
  fixes a b :: int
  assumes "0 < a" "0 < b" and nd: "nearest_double a b = (m, e)"
  shows "2 ^ 52 \<le> m" and "m \<le> 2 ^ 53"
    and "\<bar>real_of_int m * 2 powi e - real_of_int a / real_of_int b\<bar> \<le> 2 powi (e - 1)"
    and "2 powi (e + 52) \<le> real_of_int a / real_of_int b"
proof -
  let ?q = "real_of_int a / real_of_int b"
  define k where "k = bit_length a - bit_length b"
  define lg where "lg = (if b * 2 ^ nat k \<le> a * 2 ^ nat (- k) then k else k - 1)"
  define n where "n = a * 2 ^ nat (- e)"
  define d where "d = b * 2 ^ nat e"
  have "nearest_double a b
      = (round_half_even (a * 2 ^ nat (- (lg - 52))) (b * 2 ^ nat (lg - 52)), lg - 52)"
    unfolding nearest_double_def Let_def lg_def k_def by (rule refl)
  with nd [symmetric] have pr: "(m, e)
      = (round_half_even (a * 2 ^ nat (- (lg - 52))) (b * 2 ^ nat (lg - 52)), lg - 52)"
    by (rule trans)
  from pr have "snd (m, e) = lg - 52"
    by (simp only: snd_conv)
  then have e: "e = lg - 52"
    by (simp only: snd_conv)
  from pr have "fst (m, e) = round_half_even (a * 2 ^ nat (- (lg - 52))) (b * 2 ^ nat (lg - 52))"
    by (simp only: fst_conv)
  then have m: "m = round_half_even n d"
    by (simp only: fst_conv n_def d_def e)
  have lg: "2 powi lg \<le> ?q" "?q < 2 powi (lg + 1)"
    unfolding lg_def k_def by (rule log2_estimate [OF assms(1,2)])+
  have d: "0 < d" using assms(2) by (simp add: d_def)
  have rd: "0 < real_of_int d" using d by simp
  have ratio: "real_of_int n / real_of_int d = ?q * 2 powi (- e)"
  proof -
    have "real_of_int n / real_of_int d = ?q * ((2::real) ^ nat (- e) / 2 ^ nat (- (- e)))"
      by (simp add: n_def d_def)
    then show ?thesis
      by (simp only: pow_ratio)
  qed
  have "2 powi 52 = 2 powi lg * (2::real) powi (- e)"
    by (simp add: e flip: power_int_add)
  also have "\<dots> \<le> ?q * 2 powi (- e)"
    using lg(1) by (intro mult_right_mono) simp_all
  finally have lo: "2 ^ 52 \<le> real_of_int n / real_of_int d"
    by (simp add: ratio)
  have "?q * 2 powi (- e) < 2 powi (lg + 1) * (2::real) powi (- e)"
    using lg(2) by (intro mult_strict_right_mono) simp_all
  also have "\<dots> = 2 powi 53"
    by (simp add: e flip: power_int_add)
  finally have hi: "real_of_int n / real_of_int d < 2 ^ 53"
    by (simp add: ratio)
  from lo rd have "real_of_int (2 ^ 52 * d) \<le> real_of_int n"
    by (simp add: pos_le_divide_eq)
  then have lo_int: "2 ^ 52 * d \<le> n"
    by (simp only: of_int_le_iff)
  from hi rd have "real_of_int n < real_of_int (2 ^ 53 * d)"
    by (simp add: pos_divide_less_eq)
  then have hi_int: "n < 2 ^ 53 * d"
    by (simp only: of_int_less_iff)
  from d lo_int have q_lo: "2 ^ 52 \<le> n div d"
    by (rule le_div_int)
  from d hi_int have q_hi: "n div d < 2 ^ 53"
    by (rule div_less_int)
  from round_half_even_nearest [OF d, of n] q_lo q_hi
  show "2 ^ 52 \<le> m" and "m \<le> 2 ^ 53"
    by (simp_all add: m)
  from round_half_even_nearest(1) [OF d, of n]
  have "\<bar>2 * (real_of_int m * real_of_int d - real_of_int n)\<bar> \<le> real_of_int d"
    unfolding m [symmetric]
    by (metis (mono_tags) of_int_abs of_int_diff of_int_le_iff of_int_mult of_int_numeral)
  then have "\<bar>real_of_int m - real_of_int n / real_of_int d\<bar> \<le> 1 / 2"
    using rd by (simp add: field_simps abs_if split: if_splits)
  then have "\<bar>real_of_int m - real_of_int n / real_of_int d\<bar> * 2 powi e \<le> 1 / 2 * 2 powi e"
    by (intro mult_right_mono) simp_all
  moreover have "\<bar>real_of_int m - real_of_int n / real_of_int d\<bar> * 2 powi e
      = \<bar>real_of_int m * 2 powi e - ?q\<bar>"
  proof -
    have "?q * 2 powi (- e) * 2 powi e = ?q"
      by (simp add: power_int_minus)
    then have "(real_of_int m - real_of_int n / real_of_int d) * 2 powi e
        = real_of_int m * 2 powi e - ?q"
      by (simp add: ratio algebra_simps)
    moreover have "\<bar>real_of_int m - real_of_int n / real_of_int d\<bar> * 2 powi e
        = \<bar>(real_of_int m - real_of_int n / real_of_int d) * 2 powi e\<bar>"
      by (simp add: abs_mult)
    ultimately show ?thesis by simp
  qed
  moreover have "1 / 2 * (2::real) powi e = 2 powi (e - 1)"
    by (simp add: power_int_diff)
  ultimately show "\<bar>real_of_int m * 2 powi e - ?q\<bar> \<le> 2 powi (e - 1)"
    by simp
  from lg(1) show "2 powi (e + 52) \<le> ?q"
    by (simp add: e)
qed


lemma float_to_int_floor: "float_to_int x = \<lfloor>double_value x\<rfloor>"
proof (cases x)
  case (Pair m e)
  have "real_of_int (m * 2 ^ nat e) / real_of_int (2 ^ nat (- e))
      = real_of_int m * ((2::real) ^ nat e / 2 ^ nat (- e))"
    by simp
  also have "\<dots> = real_of_int m * 2 powi e"
    by (simp only: pow_ratio)
  finally have "\<lfloor>real_of_int m * 2 powi e\<rfloor>
      = \<lfloor>real_of_int (m * 2 ^ nat e) / real_of_int (2 ^ nat (- e))\<rfloor>"
    by simp
  also have "\<dots> = (m * 2 ^ nat e) div 2 ^ nat (- e)"
    by (rule floor_divide_of_int_eq)
  finally show ?thesis
    by (simp add: Pair float_to_int_def double_value_def)
qed

lemma nearest_double_relative:
  fixes a b :: int
  assumes "0 < a" "0 < b"
  shows "2 ^ 53 * \<bar>double_value (nearest_double a b) - real_of_int a / real_of_int b\<bar>
           \<le> real_of_int a / real_of_int b"
    and "0 < fst (nearest_double a b)"
proof -
  obtain m e where nd: "nearest_double a b = (m, e)"
    by (cases "nearest_double a b")
  note p = nearest_double_props [OF assms nd]
  have "2 ^ 53 * (2::real) powi (e - 1) = 2 powi (e + 52)"
    using power_int_add [of "2::real" "e - 1" 53] by (simp add: add.commute mult.commute)
  then have "2 ^ 53 * (2::real) powi (e - 1) \<le> real_of_int a / real_of_int b"
    using p(4) by simp
  moreover from p(3) have "2 ^ 53 * \<bar>real_of_int m * 2 powi e - real_of_int a / real_of_int b\<bar>
      \<le> 2 ^ 53 * (2::real) powi (e - 1)"
    by (intro mult_left_mono) simp_all
  ultimately show "2 ^ 53 * \<bar>double_value (nearest_double a b) - real_of_int a / real_of_int b\<bar>
           \<le> real_of_int a / real_of_int b"
    by (simp add: nd double_value_def)
  from p(1) show "0 < fst (nearest_double a b)"
    by (simp add: nd)
qed

lemma float_mul_int_relative:
  assumes "0 < fst x" "0 < k"
  shows "2 ^ 53 * \<bar>double_value (float_mul_int x k) - real_of_int k * double_value x\<bar>
           \<le> real_of_int k * double_value x"
proof (cases x)
  case (Pair m e)
  with assms have pos: "0 < m * k * 2 ^ nat e" "0 < (2::int) ^ nat (- e)"
    by simp_all
  have "real_of_int (m * k * 2 ^ nat e) / real_of_int (2 ^ nat (- e))
      = real_of_int k * (real_of_int m * ((2::real) ^ nat e / 2 ^ nat (- e)))"
    by simp
  also have "\<dots> = real_of_int k * double_value x"
    by (simp only: pow_ratio) (simp add: Pair double_value_def)
  finally have q: "real_of_int (m * k * 2 ^ nat e) / real_of_int (2 ^ nat (- e))
      = real_of_int k * double_value x" .
  from nearest_double_relative(1) [OF pos] show ?thesis
    by (simp only: q) (simp add: Pair float_mul_int_def)
qed


lemma product_error:
  assumes "0 < p" "0 < g"
  shows "2 ^ 53 * \<bar>double_value (float_mul_int (int_true_divide p g) 155)
            - 155 * (real_of_int p / real_of_int g)\<bar>
           \<le> 311 * (real_of_int p / real_of_int g)"
proof -
  define x where "x = real_of_int p / real_of_int g"
  define x1 where "x1 = double_value (int_true_divide p g)"
  define y1 where "y1 = double_value (float_mul_int (int_true_divide p g) 155)"
  have x: "0 < x" using assms by (simp add: x_def)
  from nearest_double_relative [OF assms]
  have a: "2 ^ 53 * \<bar>x1 - x\<bar> \<le> x" and m: "0 < fst (int_true_divide p g)"
    by (simp_all add: x_def x1_def int_true_divide_def)
  from float_mul_int_relative [OF m, of 155]
  have b: "2 ^ 53 * \<bar>y1 - 155 * x1\<bar> \<le> 155 * x1"
    by (simp add: x1_def y1_def)
  from a b x have "2 ^ 53 * \<bar>y1 - 155 * x\<bar> \<le> 311 * x"
    by (simp add: abs_if split: if_splits) 
  then show ?thesis
    by (simp add: x_def y1_def)
qed

lemma color_value_near_floor:
  assumes "0 < p" "0 < g" "g \<le> 2 ^ 40"
  shows "min 155 ((155 * p) div g) - 1 \<le> color_value p g"
    and "color_value p g \<le> min 155 ((155 * p) div g)"
proof -
  define x where "x = real_of_int p / real_of_int g"
  define y1 where "y1 = double_value (float_mul_int (int_true_divide p g) 155)"
  define t where "t = float_to_int (float_mul_int (int_true_divide p g) 155)"
  define F where "F = (155 * p) div g"
  define z where "z = real_of_int ((155 * p) mod g) / real_of_int g"
  define w where "w = 1 / real_of_int g"
  have cv: "color_value p g = min 155 t"
    using assms(2) by (simp add: color_value_def t_def)
  have rg: "0 < real_of_int g" using assms(2) by simp
  have x: "0 < x" using assms by (simp add: x_def)
  have err: "2 ^ 53 * \<bar>y1 - 155 * x\<bar> \<le> 311 * x"
    using product_error [OF assms(1,2)] by (simp add: x_def y1_def)
  have t: "real_of_int t \<le> y1" "y1 < real_of_int t + 1"
    by (simp_all add: t_def y1_def float_to_int_floor)
  have "real_of_int (155 * p) = real_of_int (F * g + (155 * p) mod g)"
    by (simp add: F_def)
  then have "155 * real_of_int p = real_of_int F * real_of_int g + real_of_int ((155 * p) mod g)"
    by simp
  then have "155 * real_of_int p / real_of_int g
      = (real_of_int F * real_of_int g + real_of_int ((155 * p) mod g)) / real_of_int g"
    by simp
  also have "\<dots> = real_of_int F + z"
    using rg by (simp add: z_def add_divide_distrib)
  finally have xF: "155 * x = real_of_int F + z"
    by (simp add: x_def)
  have "0 \<le> (155 * p) mod g" "(155 * p) mod g \<le> g - 1"
    using assms(2) by simp_all
  then have "0 \<le> real_of_int ((155 * p) mod g)"
    and "real_of_int ((155 * p) mod g) \<le> real_of_int g - 1"
    by simp_all
  with rg have z: "0 \<le> z" "z \<le> 1 - w"
    by (simp_all add: z_def w_def field_simps)
  from assms(3) have "real_of_int g \<le> 2 ^ 40"
    by (metis of_int_le_iff of_int_numeral of_int_power)
  with rg have w: "1 / 2 ^ 40 \<le> w"
    by (simp add: w_def field_simps)
  show "min 155 ((155 * p) div g) - 1 \<le> color_value p g"
  proof (cases "155 \<le> t")
    case True
    then show ?thesis by (simp add: cv)
  next
    case False
    then have "real_of_int t + 1 \<le> 155"
      by linarith
    with t(2) have y: "y1 < 155" by simp
    with err x have "x < 2"
      by (simp add: abs_if split: if_splits)
    with err x have "155 * x - 1 < y1"
      by (simp add: abs_if split: if_splits)
    with xF z(1) t(2) have "real_of_int F - 1 < real_of_int t + 1"
      by linarith
    then have "F - 1 \<le> t"
      by linarith
    with False show ?thesis
      by (simp add: cv F_def)
  qed
  show "color_value p g \<le> min 155 ((155 * p) div g)"
  proof (cases "155 \<le> F")
    case True
    then show ?thesis by (simp add: cv F_def)
  next
    case False
    then have "real_of_int F + 1 \<le> 155"
      by linarith
    moreover from rg have "0 < w"
      by (simp add: w_def)
    ultimately have "x < 1"
      using xF z(2) by linarith
    with err x have "y1 < 155 * x + 311 / 2 ^ 53"
      by (simp add: abs_if split: if_splits)
    with xF z(2) w have "y1 < real_of_int F + 1"
      by simp
    with t(1) have "real_of_int t < real_of_int F + 1"
      by linarith
    then have "t \<le> F"
      by linarith
    with False show ?thesis
      by (simp add: cv F_def)
  qed
qed

text \<open>
  The model of the division against the doubles of two well-known quotients:
  \<open>1 / 10\<close> is \<^verbatim>\<open>0x1.999999999999ap-4\<close> and \<open>1 / 3\<close> is \<^verbatim>\<open>0x1.5555555555555p-2\<close>.
\<close>

lemma int_true_divide_examples:
  "int_true_divide 1 10 = (7205759403792794, - 56)"
  "int_true_divide 1 3 = (6004799503160661, - 54)"
  by code_simp+

lemma round_half_even_nonneg:
  "0 \<le> a \<Longrightarrow> 0 < b \<Longrightarrow> 0 \<le> round_half_even a b"
  by (simp add: round_half_even_def Let_def pos_imp_zdiv_nonneg_iff)

lemma nearest_double_nonneg:
  "0 \<le> a \<Longrightarrow> 0 < b \<Longrightarrow> 0 \<le> fst (nearest_double a b)"
  by (simp add: nearest_double_def Let_def round_half_even_nonneg)

lemma float_to_int_nonneg: "0 \<le> fst x \<Longrightarrow> 0 \<le> float_to_int x"
  by (cases x) (simp add: float_to_int_def pos_imp_zdiv_nonneg_iff)

lemma float_mul_int_nonneg: "0 \<le> fst x \<Longrightarrow> 0 \<le> k \<Longrightarrow> 0 \<le> fst (float_mul_int x k)"
  by (cases x) (simp add: float_mul_int_def nearest_double_nonneg)

lemma truncation_nonneg:
  assumes "0 < points" "0 < target"
  shows "0 \<le> float_to_int (float_mul_int (int_true_divide points target) 155)"
proof -
  from assms have "0 \<le> fst (int_true_divide points target)"
    by (simp add: int_true_divide_def nearest_double_nonneg)
  then have "0 \<le> fst (float_mul_int (int_true_divide points target) 155)"
    by (rule float_mul_int_nonneg) simp
  then show ?thesis
    by (rule float_to_int_nonneg)
qed

text \<open>
  C2, as the specification states it, fails: with 5 points and a goal of 10 the
  program computes \<open>int(0.5 * 155) = int(77.5) = 77\<close>, where rounding gives 78.
\<close>

theorem color_value_truncates:
  "color_value 5 10 = 77 \<and> claimed_intensity 5 10 = 78"
  by code_simp

text \<open>
  C2, amended. For a square with \<open>points > 0\<close> (an integer of the table) and a goal
  above zero the colour value is
  \<open>clamp(trunc(points / dailyGoal * 155), 0, 155)\<close>, the quotient and the product taken in
  double precision and the fraction cut off, not rounded; for goals up to \<open>2 ^ 40\<close> this
  is \<open>min(155, floor(155 * points / dailyGoal))\<close> in exact arithmetic, or one less. 5
  points of 10 give 77, 20 points of 10 give 155. With a goal of zero the value is 0
  whatever the points.
\<close>

theorem color_value_is_truncation:
  "(0 < points \<and> sqlite_int points \<and> 0 < target \<longrightarrow>
      color_value points target = truncated_intensity points target)
   \<and> (0 < points \<and> sqlite_int points \<and> 0 < target \<and> target \<le> 2 ^ 40 \<longrightarrow>
      min 155 ((155 * points) div target) - 1 \<le> color_value points target \<and>
      color_value points target \<le> min 155 ((155 * points) div target))
   \<and> color_value 5 10 = 77 \<and> color_value 20 10 = 155
   \<and> color_value points 0 = 0"
proof (intro conjI impI)
  assume "0 < points \<and> sqlite_int points \<and> 0 < target \<and> target \<le> 2 ^ 40"
  then have "0 < points" "0 < target" "target \<le> 2 ^ 40"
    by simp_all
  then show "min 155 ((155 * points) div target) - 1 \<le> color_value points target"
    by (rule color_value_near_floor(1))
next
  assume "0 < points \<and> sqlite_int points \<and> 0 < target \<and> target \<le> 2 ^ 40"
  then have "0 < points" "0 < target" "target \<le> 2 ^ 40"
    by simp_all
  then show "color_value points target \<le> min 155 ((155 * points) div target)"
    by (rule color_value_near_floor(2))
next
  assume "0 < points \<and> sqlite_int points \<and> 0 < target"
  then show "color_value points target = truncated_intensity points target"
    using truncation_nonneg [of points target]
    by (simp add: color_value_def truncated_intensity_def)
next
  show "color_value 5 10 = 77" by code_simp
next
  show "color_value 20 10 = 155" by code_simp
next
  show "color_value points 0 = 0" by (simp add: color_value_def)
qed

theorem color_value_is_truncation_witness:
  "(0::int) < 21 \<and> sqlite_int 21 \<and> (0::int) < 31 \<and> (31::int) \<le> 2 ^ 40 \<and>
   color_value 21 31 = truncated_intensity 21 31 \<and> truncated_intensity 21 31 = 104 \<and>
   min 155 ((155 * 21) div 31) - 1 \<le> color_value 21 31 \<and>
   color_value 21 31 \<le> min 155 ((155 * 21) div 31) \<and> (155 * 21) div 31 = (105::int)"
proof -
  have "truncated_intensity 21 31 = 104" by code_simp
  moreover have "sqlite_int 21" by (simp add: sqlite_int_def)
  ultimately show ?thesis using color_value_is_truncation [of 21 31] by simp
qed

lemma quarter_positive: "(5::int) \<le> a \<Longrightarrow> 1 \<le> a div 4"
  using zdiv_mono1 [of 4 a 4] by simp

lemma row_y_positive: "1 \<le> row_y width height"
  unfolding row_y_def by (rule quarter_positive) (simp add: square_size_def)

lemma div_in_last_gap:
  fixes size :: int
  assumes "0 < size" "7 * size + 30 \<le> x" "x < 7 * (size + 5)"
  shows "x div (size + 5) = 6"
proof (rule int_div_pos_eq)
  show "x = (size + 5) * 6 + (x - 6 * (size + 5))" by simp
  show "0 \<le> x - 6 * (size + 5)" using assms(1,2) by simp
  show "x - 6 * (size + 5) < size + 5" using assms(3) by simp
qed

lemma square_index_at_unfold:
  "square_index_at width height ex ey =
     (if row_y width height \<le> ey \<and> ey < row_y width height + square_size width height
         \<and> 0 \<le> (ex - row_start_x width height) div (square_size width height + 5)
         \<and> (ex - row_start_x width height) div (square_size width height + 5) < 7
      then Some ((ex - row_start_x width height) div (square_size width height + 5))
      else None)"
  using row_y_positive [of width height]
  by (simp add: square_index_at_def Let_def)

lemma square_index_at_gap:
  assumes "row_y width height \<le> ey" "ey < row_y width height + square_size width height"
    and "row_start_x width height + (7 * square_size width height + 6 * 5) \<le> ex"
    and "ex < row_start_x width height + 7 * (square_size width height + 5)"
  shows "square_index_at width height ex ey = Some 6"
proof -
  from assms(1,2) have "0 < square_size width height" by simp
  moreover from assms(3) have "7 * square_size width height + 30 \<le> ex - row_start_x width height"
    by simp
  moreover from assms(4) have "ex - row_start_x width height < 7 * (square_size width height + 5)"
    by simp
  ultimately have "(ex - row_start_x width height) div (square_size width height + 5) = 6"
    by (rule div_in_last_gap)
  with assms(1,2) show ?thesis
    by (simp add: square_index_at_unfold)
qed

text \<open>
  C4, as the specification states it, fails: the handlers never look at the gap after a
  square. In a widget 350 wide and 40 high the squares are 35 wide and the row starts at
  37; the pointer at \<open>x = 314\<close> is in the 5 pixels after the seventh square, and with
  \<open>y\<close> in the band the index 6 is returned, not "none".
\<close>

theorem gap_after_last_square_is_hit:
  "row_start_x 350 40 + (7 * square_size 350 40 + 6 * 5) \<le> 314 \<and>
   314 < row_start_x 350 40 + 7 * (square_size 350 40 + 5) \<and>
   row_y 350 40 \<le> 10 \<and> 10 < row_y 350 40 + square_size 350 40 \<and>
   square_index_at 350 40 314 10 = Some 6"
  by (simp add: square_index_at_def row_start_x_def row_y_def square_size_def)

text \<open>
  C4, amended. With \<open>size = min(width // 6, height - 5)\<close>, the row centred and the band
  starting at \<open>y0\<close>: the index is \<open>floor((x - rowStartX) / (size + 5))\<close> when \<open>y\<close> is in
  \<open>[y0, y0 + size)\<close> and the index is in \<open>[0, 7)\<close>, and "none" otherwise. The gap after
  the seventh square is not rejected: there, with \<open>y\<close> in the band, the index is 6.
\<close>

theorem square_index_at_spec:
  "square_index_at width height ex ey =
     (if row_y width height \<le> ey \<and> ey < row_y width height + square_size width height
         \<and> 0 \<le> (ex - row_start_x width height) div (square_size width height + 5)
         \<and> (ex - row_start_x width height) div (square_size width height + 5) < 7
      then Some ((ex - row_start_x width height) div (square_size width height + 5))
      else None)
   \<and> (row_y width height \<le> ey \<and> ey < row_y width height + square_size width height
        \<and> row_start_x width height + (7 * square_size width height + 6 * 5) \<le> ex
        \<and> ex < row_start_x width height + 7 * (square_size width height + 5)
      \<longrightarrow> square_index_at width height ex ey = Some 6)"
  using square_index_at_unfold [of width height ex ey] square_index_at_gap [of width height ey ex]
  by blast

lemma geometry_350_40:
  "square_size 350 40 = 35" "row_start_x 350 40 = 37" "row_y 350 40 = 1"
  by (simp_all add: row_start_x_def row_y_def square_size_def)

theorem square_index_at_spec_witness:
  "row_y 350 40 \<le> 15 \<and> 15 < row_y 350 40 + square_size 350 40 \<and>
   row_start_x 350 40 + (7 * square_size 350 40 + 6 * 5) \<le> 316 \<and>
   316 < row_start_x 350 40 + 7 * (square_size 350 40 + 5) \<and>
   square_index_at 350 40 316 15 = Some 6 \<and>
   square_index_at 350 40 54 15 = Some 0"
proof -
  have h: "row_y 350 40 \<le> 15 \<and> 15 < row_y 350 40 + square_size 350 40 \<and>
      row_start_x 350 40 + (7 * square_size 350 40 + 6 * 5) \<le> 316 \<and>
      316 < row_start_x 350 40 + 7 * (square_size 350 40 + 5)"
    by (simp add: geometry_350_40)
  with square_index_at_spec [of 350 40 316 15] have "square_index_at 350 40 316 15 = Some 6"
    by blast
  moreover from square_index_at_spec [of 350 40 54 15] have "square_index_at 350 40 54 15 = Some 0"
    by (simp add: geometry_350_40)
  ultimately show ?thesis using h by blast
qed

section \<open>Week navigation\<close>





text \<open>
  Outside this range there is no step forward: the handler raises and leaves the
  anchor where it was.
\<close>

lemma show_next_week_out_of_range:
  "MAXORDINAL < ordinal (current_week_start s) + 7 \<Longrightarrow> show_next_week s = Inl OverflowError"
  by (simp add: show_next_week_def add_days_def)




section \<open>The keys of the heatmap\<close>

text \<open>
  The month and the day that \<open>ord2ymd\<close> computes are those of a date, and the year is
  positive: the conversions to natural numbers in \<open>strftime_Ymd\<close> lose nothing.
\<close>

lemma month_and_day_table:
  "list_all (\<lambda>n. date_fields_ok (month_and_day True n)) [0..364]"
  "list_all (\<lambda>n. date_fields_ok (month_and_day False n)) [0..364]"
  by code_simp+

lemma month_and_day_range:
  assumes "0 \<le> n" "n \<le> 364"
  shows "date_fields_ok (month_and_day leapyear n)"
proof -
  from assms have "n \<in> set [0..364]" by simp
  with month_and_day_table show ?thesis
    by (cases leapyear) (auto simp only: list_all_iff)
qed

lemma ord2ymd_range:
  assumes "1 \<le> ord"
  shows "case ord2ymd ord of (y, m, d) \<Rightarrow> 1 \<le> y \<and> 1 \<le> m \<and> m \<le> 12 \<and> 1 \<le> d \<and> d \<le> 31"
proof -
  let ?n = "(ord - 1) mod DI400Y mod DI100Y mod DI4Y mod 365"
  have nonneg: "0 \<le> (ord - 1) div DI400Y" "0 \<le> (ord - 1) mod DI400Y div DI100Y"
    "0 \<le> (ord - 1) mod DI400Y mod DI100Y div DI4Y"
    "0 \<le> (ord - 1) mod DI400Y mod DI100Y mod DI4Y div 365"
    using assms
    by (simp_all add: DI400Y_def DI100Y_def DI4Y_def pos_imp_zdiv_nonneg_iff)
  have "date_fields_ok (month_and_day b ?n)" for b
    by (rule month_and_day_range) simp_all
  then have md: "1 \<le> fst (month_and_day b ?n)" "fst (month_and_day b ?n) \<le> 12"
    "1 \<le> snd (month_and_day b ?n)" "snd (month_and_day b ?n) \<le> 31" for b
    by (simp_all add: date_fields_ok_def case_prod_beta)
  from nonneg show ?thesis
    by (simp add: ord2ymd_def Let_def case_prod_beta md)
qed

lemma str_nat_last: "\<exists>pre. str_nat n = pre @ [char_of (48 + n mod 10)]"
  by (subst str_nat.simps) simp

lemma digit_char_not_hyphen: "k < 10 \<Longrightarrow> char_of (48 + k :: nat) \<noteq> CHR ''-''"
proof
  assume k: "k < 10" and "char_of (48 + k) = CHR ''-''"
  then have "of_char (char_of (48 + k)) = (of_char CHR ''-'' :: nat)"
    by simp
  with k show False
    by simp
qed

lemma two_digits_shape:
  "\<exists>pre a b. zero_pad 2 (str_nat n) = pre @ [a, b] \<and> a \<noteq> CHR ''-''"
proof (cases "n < 10")
  case True
  then have "zero_pad 2 (str_nat n) = [] @ [CHR ''0'', char_of (48 + n)]"
    by (subst str_nat.simps) (simp add: zero_pad_def)
  then show ?thesis
    by blast
next
  case False
  obtain pre where pre: "str_nat (n div 10) = pre @ [char_of (48 + (n div 10) mod 10)]"
    using str_nat_last by blast
  from False have "str_nat n = str_nat (n div 10) @ [char_of (48 + n mod 10)]"
    by (subst str_nat.simps) simp
  with pre have "zero_pad 2 (str_nat n)
      = pre @ [char_of (48 + (n div 10) mod 10), char_of (48 + n mod 10)]"
    by (simp add: zero_pad_def)
  moreover have "char_of (48 + (n div 10) mod 10) \<noteq> CHR ''-''"
    by (rule digit_char_not_hyphen) simp
  ultimately show ?thesis
    by blast
qed

lemma strftime_never_unpadded: "strftime_Ymd pad_year dt \<noteq> ''2024-1-5''"
proof
  assume eq: "strftime_Ymd pad_year dt = ''2024-1-5''"
  obtain y m d where ymd: "ord2ymd (ordinal dt) = (y, m, d)"
    by (cases "ord2ymd (ordinal dt)") 
  obtain pre a b where shape: "zero_pad 2 (str_nat (nat d)) = pre @ [a, b]" and a: "a \<noteq> CHR ''-''"
    using two_digits_shape by blast
  define front where "front = (if pad_year then zero_pad 4 (str_nat (nat y)) else str_nat (nat y))
        @ ''-'' @ zero_pad 2 (str_nat (nat m)) @ ''-'' @ pre"
  have "strftime_Ymd pad_year dt = front @ [a, b]"
    by (simp add: strftime_Ymd_def ymd shape front_def)
  with eq have "front @ [a, b] = ''2024-1'' @ [CHR ''-'', CHR ''5'']"
    by simp
  then have "[a, b] = [CHR ''-'', CHR ''5'']"
    using append_eq_append_conv [of front "''2024-1''" "[a, b]" "[CHR ''-'', CHR ''5'']"]
    by simp
  with a show False
    by simp
qed

lemma cell_date_never_unpadded: "cell_date pad_year s i \<noteq> Inr ''2024-1-5''"
  by (simp add: cell_date_def strftime_never_unpadded split: sum.split)

lemma rows_dict_last:
  "rows_dict t k = (case rev (filter (\<lambda>r. row_date r = k) t) of
                      [] \<Rightarrow> None | r # rs \<Rightarrow> Some (row_points r))"
proof (induction t rule: rev_induct)
  case Nil
  show ?case by (simp add: rows_dict_def)
next
  case (snoc r t)
  then show ?case by (simp add: rows_dict_snoc)
qed

lemma other_dates_sql_update:
  "k \<noteq> d \<Longrightarrow> filter (\<lambda>r. row_date r = k) (sql_update n d t) = filter (\<lambda>r. row_date r = k) t"
  by (induction t) (auto simp: sql_update_def)

lemma other_dates_sql_delete:
  "k \<noteq> d \<Longrightarrow> filter (\<lambda>r. row_date r = k) (sql_delete d t) = filter (\<lambda>r. row_date r = k) t"
  by (induction t) (auto simp: sql_delete_def)

lemma other_dates_sql_insert:
  "k \<noteq> d \<Longrightarrow> filter (\<lambda>r. row_date r = k) (sql_insert d n t) = filter (\<lambda>r. row_date r = k) t"
  by (simp add: sql_insert_def)

lemma other_dates_update_points:
  assumes "k \<noteq> effective_date date_arg s"
  shows "filter (\<lambda>r. row_date r = k) (db (snd (update_points operation date_arg s)))
           = filter (\<lambda>r. row_date r = k) (db s)"
  using assms
  by (simp add: update_points_def Let_def other_dates_sql_update other_dates_sql_delete
      other_dates_sql_insert split: option.split)

lemma points_data_other_dates:
  assumes "k \<noteq> effective_date date_arg s"
  shows "cell_points (update_points_display (snd (update_points operation date_arg s))) k
           = cell_points (update_points_display s) k"
  using other_dates_update_points [OF assms, of operation]
  by (simp add: cell_points_def update_points_display_def rows_dict_last)

lemma valid_2024_1_5: "is_valid_date ''2024-1-5''"
  by (simp add: date_eval)

lemma week_start_update_points [simp]:
  "current_week_start (snd (update_points operation date_arg s)) = current_week_start s"
  by (simp add: update_points_def Let_def commit_def update_points_display_def
      split: option.split)

lemma cell_date_cong:
  "current_week_start s = current_week_start s' \<Longrightarrow> cell_date p s i = cell_date p s' i"
  by (simp add: cell_date_def)

lemma cell_date_start_4: "cell_date True start_tracker 4 = Inr ''2024-01-05''"
  by code_simp

text \<open>
  C10. The string \<open>2024-1-5\<close> is a valid date for the program although it is not
  zero-padded. Adding points under it, when no row has it yet, appends a row whose date
  is exactly this string. No square of any week ever has this key, since \<open>strftime\<close>
  writes the month and the day with two digits; so for every square of the week the
  points looked up after the addition are those looked up before it: the row adds
  nothing to any square.
\<close>

theorem unpadded_date_stored_never_shown:
  "is_valid_date ''2024-1-5''
   \<and> (effective_date date_arg s = ''2024-1-5'' \<and> ''2024-1-5'' \<notin> set (map row_date (db s))
        \<and> isdigit (points_entry s) \<and> sqlite_int (py_int (points_entry s)) \<longrightarrow>
      db (snd (update_points 1 date_arg s))
        = db s @ [\<lparr>row_id = next_rowid (db s), row_date = ''2024-1-5'',
                    row_points = py_int (points_entry s)\<rparr>])
   \<and> cell_date pad_year s' i \<noteq> Inr ''2024-1-5''
   \<and> (effective_date date_arg s = ''2024-1-5''
        \<and> cell_date pad_year (snd (update_points 1 date_arg s)) i = Inr k \<longrightarrow>
      cell_points (update_points_display (snd (update_points 1 date_arg s))) k
        = cell_points (update_points_display s) k)"
proof (intro conjI impI)
  show "is_valid_date ''2024-1-5''"
    by (rule valid_2024_1_5)
next
  assume h: "effective_date date_arg s = ''2024-1-5'' \<and> ''2024-1-5'' \<notin> set (map row_date (db s))
        \<and> isdigit (points_entry s) \<and> sqlite_int (py_int (points_entry s))"
  then have e: "effective_date date_arg s = ''2024-1-5''"
    by simp
  from h valid_2024_1_5
  have "update_points 1 date_arg s =
          (Information_added (points_entry s),
           commit (sql_insert ''2024-1-5'' (py_int (points_entry s)) (db s)) s)"
    using update_points_insert [of date_arg s] by (simp only: e) simp
  then show "db (snd (update_points 1 date_arg s))
        = db s @ [\<lparr>row_id = next_rowid (db s), row_date = ''2024-1-5'',
                    row_points = py_int (points_entry s)\<rparr>]"
    by (simp add: sql_insert_def)
next
  show "cell_date pad_year s' i \<noteq> Inr ''2024-1-5''"
    by (rule cell_date_never_unpadded)
next
  assume h: "effective_date date_arg s = ''2024-1-5''
        \<and> cell_date pad_year (snd (update_points 1 date_arg s)) i = Inr k"
  then have "k \<noteq> ''2024-1-5''"
    using cell_date_never_unpadded by metis
  with h have "k \<noteq> effective_date date_arg s"
    by simp
  then show "cell_points (update_points_display (snd (update_points 1 date_arg s))) k
        = cell_points (update_points_display s) k"
    by (rule points_data_other_dates)
qed

theorem unpadded_date_stored_never_shown_witness:
  "effective_date None (start_tracker\<lparr>date_entry := ''2024-1-5'', points_entry := ''5''\<rparr>)
     = ''2024-1-5'' \<and>
   ''2024-1-5'' \<notin> set (map row_date
       (db (start_tracker\<lparr>date_entry := ''2024-1-5'', points_entry := ''5''\<rparr>))) \<and>
   isdigit (points_entry (start_tracker\<lparr>date_entry := ''2024-1-5'', points_entry := ''5''\<rparr>)) \<and>
   sqlite_int (py_int (points_entry
       (start_tracker\<lparr>date_entry := ''2024-1-5'', points_entry := ''5''\<rparr>))) \<and>
   db (snd (update_points 1 None
       (start_tracker\<lparr>date_entry := ''2024-1-5'', points_entry := ''5''\<rparr>)))
     = [\<lparr>row_id = 1, row_date = ''2024-1-5'', row_points = 5\<rparr>] \<and>
   cell_date True (snd (update_points 1 None
       (start_tracker\<lparr>date_entry := ''2024-1-5'', points_entry := ''5''\<rparr>))) 4
     = Inr ''2024-01-05'' \<and>
   cell_points (update_points_display (snd (update_points 1 None
       (start_tracker\<lparr>date_entry := ''2024-1-5'', points_entry := ''5''\<rparr>)))) ''2024-01-05'' = 0"
proof -
  let ?s = "start_tracker\<lparr>date_entry := ''2024-1-5'', points_entry := ''5''\<rparr>"
  let ?s' = "snd (update_points 1 None ?s)"
  have e: "effective_date None ?s = ''2024-1-5''"
    by (simp add: effective_date_def)
  have f: "''2024-1-5'' \<notin> set (map row_date (db ?s))"
    by (simp add: start_tracker_simps)
  have d: "isdigit (points_entry ?s)"
    by (simp add: isdigit_def in_class_def)
  have p: "py_int (points_entry ?s) = 5"
    by (simp add: py_int_def decimal_def digit_value_def)
  have q: "sqlite_int (py_int (points_entry ?s))"
    by (simp only: p) (simp add: sqlite_int_def)
  have w: "current_week_start ?s' = current_week_start start_tracker"
    by simp
  have c: "cell_date True ?s' 4 = Inr ''2024-01-05''"
    using cell_date_cong [OF w, of True 4] cell_date_start_4 by simp
  have z: "cell_points (update_points_display ?s) ''2024-01-05'' = 0"
    by (simp add: cell_points_def update_points_display_def rows_dict_def start_tracker_simps)
  have n: "next_rowid (db ?s) = 1"
    by (simp add: next_rowid_def start_tracker_simps)
  from unpadded_date_stored_never_shown [of None ?s True ?s 4 "''2024-01-05''"] e f d q c
  have "db ?s' = db ?s @ [\<lparr>row_id = next_rowid (db ?s), row_date = ''2024-1-5'',
                    row_points = py_int (points_entry ?s)\<rparr>]"
    and "cell_points (update_points_display ?s') ''2024-01-05''
          = cell_points (update_points_display ?s) ''2024-01-05''"
    by blast+
  then have "db ?s' = [\<lparr>row_id = 1, row_date = ''2024-1-5'', row_points = 5\<rparr>]"
    and "cell_points (update_points_display ?s') ''2024-01-05'' = 0"
    by (simp_all only: n p z) (simp_all add: start_tracker_simps)
  with e f d q c show ?thesis
    by blast
qed

end
